theory Spec2Isabelle
  imports Complex_Main "HOL-Library.Char_ord" "HOL-Library.List_Lexorder"
begin

section \<open>Configuration and errors\<close>

text \<open>
  The constants of the script's CONFIG block. \<open>QUICK_SLOTS\<close> is the number of rotating
  quick-save slots, \<open>METADATA_FORMAT_VERSION\<close> the schema tag written into every record.
\<close>

definition QUICK_SLOTS :: int where
  "QUICK_SLOTS = 5"

definition METADATA_FORMAT_VERSION :: int where
  "METADATA_FORMAT_VERSION = 1"

definition STATE_PLAIN :: string where
  "STATE_PLAIN = ''plain''"

definition STATE_LZ :: string where
  "STATE_LZ = ''lz''"

text \<open>
  A JavaScript \<open>Error\<close> object: its message and, when it was built with
  \<open>{ cause: e }\<close>, the error it wraps.
\<close>

datatype error = Error (message: string) (cause: "error option")

section \<open>Numbers written as text\<close>

text \<open>
  Template literals print an integer number in decimal (exactly so below \<open>10\<^sup>2\<^sup>1\<close>).
\<close>

definition digit_char :: "nat \<Rightarrow> char" where
  "digit_char d = ''0123456789'' ! (d mod 10)"

fun digits10 :: "nat \<Rightarrow> string" where
  "digits10 n = (if n < 10 then [digit_char n] else digits10 (n div 10) @ [digit_char (n mod 10)])"

declare digits10.simps [simp del]

definition show_int :: "int \<Rightarrow> string" where
  "show_int i = (if i < 0 then CHR ''-'' # digits10 (nat (- i)) else digits10 (nat i))"

section \<open>Names as texts\<close>

text \<open>
  The name of a save is read unit by unit (\<open>trim\<close>, \<open>startsWith\<close>, \<open>slice\<close>, \<open>Number\<close>), so a
  name is the list of its UTF-16 code units (numbers from 0 to 65535, none of which the
  script computes with), and \<open>js\<close> writes a literal in that form.
  The other strings of the script (ids, titles, payloads, messages) are only compared
  and joined. \<open>is_ws\<close> tells the white space and the line terminators that \<open>trim\<close>
  removes: tab, line feed, vertical tab, form feed, carriage return, space, no-break
  space, the space separators U+1680, U+2000 to U+200A, U+202F, U+205F and U+3000, the
  line and paragraph separators U+2028 and U+2029, and U+FEFF.
\<close>

type_synonym jstring = "int list"

definition js :: "string \<Rightarrow> jstring" where
  "js s = map of_char s"

definition is_ws :: "int \<Rightarrow> bool" where
  "is_ws c =
     (c \<in> set [0x09, 0x0A, 0x0B, 0x0C, 0x0D, 0x20, 0xA0, 0x1680, 0x2028, 0x2029, 0x202F,
                0x205F, 0x3000, 0xFEFF]
      \<or> (0x2000 \<le> c \<and> c \<le> 0x200A))"

definition js_trim :: "jstring \<Rightarrow> jstring" where
  "js_trim s = rev (dropWhile is_ws (rev (dropWhile is_ws s)))"

section \<open>Save records and the object store\<close>

text \<open>
  The payload \<open>{ state, enc }\<close> that \<open>enc\<close> returns, and the save record that
  \<open>create\<close> writes around it. The field \<open>id\<close> of the script is \<open>id'\<close> here.
  \<open>quick\<close> is \<open>None\<close> for \<open>null\<close> (a manual save) and the slot number otherwise;
  \<open>ts\<close> is a \<open>Date.now()\<close> reading, an integer number of milliseconds.
\<close>

record payload =
  state :: string
  enc :: string

record meta =
  name :: jstring
  scene :: string
  ts :: int
  quick :: "int option"
  fmt :: int

record save = payload +
  id' :: string
  game :: string
  meta :: meta

text \<open>
  The object store \<open>saves\<close> of the wrapper class \<open>DB\<close>: at most one object for each value
  of the key path (\<open>put\<close> replaces), so a store is the list of its objects and the
  operations are generic in the key path. The engine's operations below run on stores of
  \<open>save\<close> records, the shape \<open>create\<close> writes; \<open>import\<close> stores parsed JSON objects as
  they come and has its own section. \<open>list\<close> reads the index \<open>game\<close>, which yields the
  title's records in the order of their primary keys, and sorts them by descending
  timestamp; \<open>Array.prototype.sort\<close> is stable, as \<open>sort_key\<close> is. Failures of the
  storage engine itself (quota, aborted transactions) are not part of this theory.
\<close>

definition DB_put :: "('r \<Rightarrow> 'k) \<Rightarrow> 'r \<Rightarrow> 'r list \<Rightarrow> 'r list" where
  "DB_put keyPath x st = x # filter (\<lambda>r. keyPath r \<noteq> keyPath x) st"


definition DB_delete :: "('r \<Rightarrow> 'k) \<Rightarrow> 'k \<Rightarrow> 'r list \<Rightarrow> 'r list" where
  "DB_delete keyPath k st = filter (\<lambda>r. keyPath r \<noteq> k) st"

definition DB_list :: "string \<Rightarrow> save list \<Rightarrow> save list" where
  "DB_list g st =
     sort_key (\<lambda>r. - ts (meta r)) (sort_key id' (filter (\<lambda>r. game r = g) st))"

section \<open>The host: JSON, LZString, numbers and the game\<close>

text \<open>
  What the script takes from its surroundings, for states of any type \<open>'a\<close> and number
  values of any type \<open>'n\<close>.
  \<open>JSON.stringify\<close> of a captured state and \<open>JSON.parse\<close> either return or throw; the
  global \<open>LZString\<close> is \<open>None\<close> when the library was not loaded (\<open>HAS_LZ\<close> is false and
  \<open>typeof LZString === "undefined"\<close>); \<open>decompressFromBase64\<close> returns \<open>null\<close> (\<open>None\<close>) or
  a string. \<open>sceneName\<close> is the value of \<open>s.stats?.sceneName || ""\<close> on a captured state and
  \<open>gameId\<close> the value of \<open>gameId()\<close>, the title of the running game.
  The arithmetic of the engine is floating point and is taken as it comes: \<open>Number\<close> is
  the conversion \<open>Number(text)\<close>, \<open>isNaN\<close> and \<open>Math_max\<close> (of all its arguments) are the
  functions of these names, \<open>num_lit\<close> is the value of an integer literal of the script
  (\<open>0\<close>, \<open>1\<close>), \<open>num_add\<close> is \<open>+\<close> on two numbers and \<open>num_text\<close> the text a template literal
  prints for a number. \<open>TypeError\<close> is the error the engine raises when \<open>null\<close> or
  \<open>undefined\<close> is destructured, or its property \<open>message\<close> is read; the message of that
  error is the engine's.
\<close>

datatype null_access = Destructure | ReadMessage

record lz_string =
  compressToBase64 :: "string \<Rightarrow> string"
  decompressFromBase64 :: "string \<Rightarrow> string option"

record ('a, 'n) host =
  JSON_stringify :: "'a \<Rightarrow> error + string"
  JSON_parse :: "string \<Rightarrow> error + 'a"
  LZString :: "lz_string option"
  sceneName :: "'a \<Rightarrow> string"
  gameId :: string
  Number :: "jstring \<Rightarrow> 'n"
  isNaN :: "'n \<Rightarrow> bool"
  Math_max :: "'n list \<Rightarrow> 'n"
  num_lit :: "int \<Rightarrow> 'n"
  num_add :: "'n \<Rightarrow> 'n \<Rightarrow> 'n"
  num_text :: "'n \<Rightarrow> jstring"
  TypeError :: "null_access \<Rightarrow> error"

text \<open>
  What one call of \<open>create\<close> reads while it runs: the outcome of \<open>capture()\<close>, the
  compression setting, the two readings of the clock (one inside the id, one for \<open>ts\<close>)
  and the random \<open>uid()\<close>.
\<close>

record 'a call =
  capture :: "error + 'a"
  compression :: bool
  now_id :: int
  uid :: string
  now_ts :: int

section \<open>Codec\<close>

text \<open>
  \<open>enc\<close> and \<open>dec\<close> of the script (named \<open>enc_state\<close> and \<open>dec_record\<close>, the names
  \<open>enc\<close> and \<open>state\<close> being fields). \<open>dec\<close> runs inside one \<open>try\<close> whose handler
  wraps whatever was thrown, the missing library included, in the same new error.
  \<open>JSON.parse(null)\<close> parses the text \<open>null\<close>.
\<close>

definition enc_state :: "('a, 'n) host \<Rightarrow> bool \<Rightarrow> 'a \<Rightarrow> error + payload" where
  "enc_state H compress s =
     (case JSON_stringify H s of
        Inl e \<Rightarrow> Inl e
      | Inr txt \<Rightarrow>
          (case LZString H of
             Some lz \<Rightarrow>
               if compress then Inr \<lparr>state = compressToBase64 lz txt, enc = STATE_LZ\<rparr>
               else Inr \<lparr>state = txt, enc = STATE_PLAIN\<rparr>
           | None \<Rightarrow> Inr \<lparr>state = txt, enc = STATE_PLAIN\<rparr>))"

definition dec_try :: "('a, 'n) host \<Rightarrow> 'z payload_scheme \<Rightarrow> error + 'a" where
  "dec_try H r =
     (if enc r = STATE_LZ then
        (case LZString H of
           None \<Rightarrow> Inl (Error ''LZString unavailable for decompression.'' None)
         | Some lz \<Rightarrow>
             (case decompressFromBase64 lz (state r) of
                None \<Rightarrow> JSON_parse H ''null''
              | Some txt \<Rightarrow> JSON_parse H txt))
      else JSON_parse H (state r))"

definition dec_record :: "('a, 'n) host \<Rightarrow> 'z payload_scheme \<Rightarrow> error + 'a" where
  "dec_record H r =
     (case dec_try H r of
        Inl e \<Rightarrow> Inl (Error ''Corrupted save data or decode failure.'' (Some e))
      | Inr s \<Rightarrow> Inr s)"

section \<open>Save engine: create and quick\<close>

text \<open>
  The default name of \<open>create\<close>: \<open>Save\<close> and the text of
  \<open>Math.max(0, ...rows.map(...)) + 1\<close>, where a row counts \<open>0\<close> when \<open>r.meta.quick\<close> is
  truthy (a slot other than 0), when its name does not start with \<open>Save \<close>, or when
  \<open>Number(name.slice(5))\<close> is \<open>NaN\<close>, and counts that number otherwise.
\<close>

definition truthy_quick :: "int option \<Rightarrow> bool" where
  "truthy_quick q = (case q of None \<Rightarrow> False | Some n \<Rightarrow> n \<noteq> 0)"

definition counted :: "('a, 'n) host \<Rightarrow> save \<Rightarrow> 'n" where
  "counted H r =
     (if truthy_quick (quick (meta r)) \<or> take 5 (name (meta r)) \<noteq> js ''Save '' then num_lit H 0
      else (let n = Number H (drop 5 (name (meta r))) in if isNaN H n then num_lit H 0 else n))"

definition default_name :: "('a, 'n) host \<Rightarrow> save list \<Rightarrow> jstring" where
  "default_name H rows =
     js ''Save '' @
     num_text H (num_add H (Math_max H (num_lit H 0 # map (counted H) rows)) (num_lit H 1))"

text \<open>
  \<open>create(name, quick)\<close>: capture, encode, list the title's records for the default
  number, put the new record. \<open>new_id\<close> is the id \<open>`${gameId()}_${now()}_${uid()}`\<close> and
  \<open>new_save\<close> the object handed to \<open>put\<close>; its name is \<open>name?.trim() || `Save ${max + 1}`\<close>,
  the trimmed name unless that is empty (a call without a name passes the empty text).
  The result of \<open>create\<close> is the error the call rejects with, if any, and the store it
  leaves behind.
\<close>

definition new_id :: "('a, 'n) host \<Rightarrow> 'a call \<Rightarrow> string" where
  "new_id H C = gameId H @ ''_'' @ show_int (now_id C) @ ''_'' @ uid C"

definition new_save ::
  "('a, 'n) host \<Rightarrow> 'a call \<Rightarrow> jstring \<Rightarrow> int option \<Rightarrow> 'a \<Rightarrow> payload \<Rightarrow> save list \<Rightarrow> save" where
  "new_save H C nm q s e rows =
     \<lparr>state = state e, enc = enc e,
      id' = new_id H C,
      game = gameId H,
      meta =
        \<lparr>name = (if js_trim nm \<noteq> [] then js_trim nm else default_name H rows),
         scene = sceneName H s,
         ts = now_ts C,
         quick = q,
         fmt = METADATA_FORMAT_VERSION\<rparr>\<rparr>"

definition SaveManager_create ::
  "('a, 'n) host \<Rightarrow> 'a call \<Rightarrow> jstring \<Rightarrow> int option \<Rightarrow> save list \<Rightarrow> error option \<times> save list" where
  "SaveManager_create H C nm q st =
     (case capture C of
        Inl e \<Rightarrow> (Some e, st)
      | Inr s \<Rightarrow>
          (case enc_state H (compression C) s of
             Inl e \<Rightarrow> (Some e, st)
           | Inr e \<Rightarrow>
               (None, DB_put id' (new_save H C nm q s e (DB_list (gameId H) st)) st)))"

text \<open>
  \<open>quick()\<close>: the title's quick records, oldest first; the target slot; the deletion of
  every quick record in that slot; the new record, named \<open>`Slot ${s}/${QUICK_SLOTS}`\<close>.
  In the second branch of \<open>target_slot\<close> the list holds at least \<open>QUICK_SLOTS\<close> records,
  each with a slot, so the two defaults 1 (the initial value of \<open>s\<close>) are never taken.
\<close>

definition quick_saves :: "string \<Rightarrow> save list \<Rightarrow> save list" where
  "quick_saves g st =
     sort_key (\<lambda>r. ts (meta r)) (filter (\<lambda>r. quick (meta r) \<noteq> None) (DB_list g st))"

definition target_slot :: "save list \<Rightarrow> int" where
  "target_slot qSaves =
     (if int (length qSaves) < QUICK_SLOTS then
        (case find (\<lambda>i. Some i \<notin> set (map (\<lambda>r. quick (meta r)) qSaves)) [1..QUICK_SLOTS] of
           Some i \<Rightarrow> i
         | None \<Rightarrow> 1)
      else
        (case qSaves of
           r # _ \<Rightarrow> (case quick (meta r) of Some q \<Rightarrow> q | None \<Rightarrow> 1)
         | [] \<Rightarrow> 1))"

definition delete_slot :: "int \<Rightarrow> save list \<Rightarrow> save list \<Rightarrow> save list" where
  "delete_slot s qSaves st =
     fold (\<lambda>r st'. if quick (meta r) = Some s then DB_delete id' (id' r) st' else st') qSaves st"

definition slot_name :: "int \<Rightarrow> jstring" where
  "slot_name s = js (''Slot '' @ show_int s @ ''/'' @ show_int QUICK_SLOTS)"

definition SaveManager_quick ::
  "('a, 'n) host \<Rightarrow> 'a call \<Rightarrow> save list \<Rightarrow> error option \<times> save list" where
  "SaveManager_quick H C st =
     (let qSaves = quick_saves (gameId H) st;
          s = target_slot qSaves
      in SaveManager_create H C (slot_name s) (Some s) (delete_slot s qSaves st))"

text \<open>
  A sequence of \<open>quick()\<close> calls, one after the other: the slots they target and the store
  after the last one.
\<close>

fun quick_run :: "('a, 'n) host \<Rightarrow> 'a call list \<Rightarrow> save list \<Rightarrow> int list \<times> save list" where
  "quick_run H [] st = ([], st)"
| "quick_run H (C # Cs) st =
     (let s = target_slot (quick_saves (gameId H) st);
          r = quick_run H Cs (snd (SaveManager_quick H C st))
      in (s # fst r, snd r))"

section \<open>Save engine: load\<close>

text \<open>
  A value that a hook of the game throws: \<open>null\<close> or \<open>undefined\<close>, or an object with a
  message (an \<open>Error\<close>), or any other value, whose \<open>message\<close> reads \<open>undefined\<close>.
\<close>

datatype thrown = ThrownNullish | ThrownError error | ThrownOther

text \<open>
  What \<open>load\<close> meets in the game: \<open>getCSApi()\<close> yields the hooks or \<open>null\<close>. A hook that
  takes the callback \<open>run\<close> throws at once (\<open>CallThrows\<close>), or returns without having
  called \<open>run\<close> (\<open>CallDefers\<close>: a deferred \<open>run\<close> executes after \<open>load\<close> has returned), or
  calls \<open>run\<close> before it returns (\<open>CallRuns\<close>): then it either lets an exception of \<open>run\<close>
  pass or swallows it, and ends by returning or by throwing a value of its own.
  \<open>initStore\<close> is the call \<open>api.i()\<close>, \<open>saveCookie\<close> is \<open>None\<close> when the game has no such
  hook and \<open>set_slot\<close> is the call \<open>st.set("state" + slot, parsedState, run)\<close> made then.
  \<open>replay\<close> is the engine-native path inside \<open>run\<close>
  (\<open>clearScreen\<close> with \<open>loadAndRestoreGame\<close> or \<open>restoreGame\<close>), the two \<open>inject\<close> fields are
  the calls \<open>st.set("state", parsedState, ...)\<close> inside \<open>run\<close> and inside the handler of
  the engine error. \<open>as_string\<close> answers \<open>typeof s === "string"\<close> and \<open>nullish\<close> tells the
  states that cannot be destructured (\<open>null\<close> and \<open>undefined\<close>).
\<close>

datatype callback_call =
    CallThrows thrown
  | CallDefers
  | CallRuns (swallows: bool) (ends: "thrown option")

datatype replay_outcome = ReplayUnavailable | ReplayThrows thrown | ReplayReturns

record 'a engine =
  initStore :: "thrown option"
  saveCookie :: "callback_call option"
  set_slot :: callback_call
  replay :: replay_outcome
  inject_in_run :: "thrown option"
  inject_in_handler :: "thrown option"
  as_string :: "'a \<Rightarrow> string option"
  nullish :: "'a \<Rightarrow> bool"

datatype event =
    Toast string
  | ConsoleError thrown
  | ConsoleWarn thrown
  | Replayed
  | Injected

text \<open>
  Each step yields the events it caused and the value it threw, if any.
  \<open>inject\<close> is the hard fallback \<open>st.set("state", parsedState, () => location.reload())\<close>
  with the given outcome; \<open>run\<close> is the callback of that name; \<open>restore\<close> is the inner
  \<open>try\<close> of \<open>load\<close> with its handler.
\<close>

definition inject :: "thrown option \<Rightarrow> event list \<Rightarrow> event list \<times> thrown option" where
  "inject outcome evs =
     (case outcome of Some e \<Rightarrow> (evs, Some e) | None \<Rightarrow> (evs @ [Injected], None))"

definition run :: "'a engine \<Rightarrow> event list \<times> thrown option" where
  "run A =
     (case replay A of
        ReplayReturns \<Rightarrow> ([Replayed], None)
      | ReplayThrows err \<Rightarrow> inject (inject_in_run A) [ConsoleWarn err]
      | ReplayUnavailable \<Rightarrow> inject (inject_in_run A) [])"





section \<open>Import\<close>

text \<open>
  A value as \<open>JSON.parse\<close> returns it: \<open>null\<close>, a boolean, a finite number (given by its
  value), a string, an array, or an object with its properties in order, each name once.
  \<open>opt_get v k\<close> is the read \<open>v?.k\<close> for the property names the script reads (\<open>id\<close>,
  \<open>state\<close>, \<open>meta\<close>, \<open>ts\<close>, \<open>fmt\<close>), \<open>None\<close> standing for \<open>undefined\<close>: only an object has
  such a property. \<open>truthy\<close> is the conversion to a boolean.
\<close>

datatype json =
    JNull
  | JBool bool
  | JNum rat
  | JStr string
  | JArr "json list"
  | JObj "(string \<times> json) list"

definition opt_get :: "json option \<Rightarrow> string \<Rightarrow> json option" where
  "opt_get v k = (case v of Some (JObj kvs) \<Rightarrow> map_of kvs k | _ \<Rightarrow> None)"

definition truthy :: "json option \<Rightarrow> bool" where
  "truthy v =
     (case v of
        None \<Rightarrow> False
      | Some JNull \<Rightarrow> False
      | Some (JBool b) \<Rightarrow> b
      | Some (JNum q) \<Rightarrow> q \<noteq> 0
      | Some (JStr s) \<Rightarrow> s \<noteq> []
      | Some (JArr xs) \<Rightarrow> True
      | Some (JObj kvs) \<Rightarrow> True)"

definition first :: "json list \<Rightarrow> json option" where
  "first parsed = (case parsed of [] \<Rightarrow> None | x # _ \<Rightarrow> Some x)"

definition version_of :: "json list \<Rightarrow> json" where
  "version_of parsed =
     (let v = opt_get (opt_get (first parsed) ''meta'') ''fmt''
      in case v of None \<Rightarrow> JNum 0 | Some x \<Rightarrow> if truthy v then x else JNum 0)"

definition not_null :: "json option \<Rightarrow> bool" where
  "not_null v = (case v of None \<Rightarrow> False | Some JNull \<Rightarrow> False | Some _ \<Rightarrow> True)"

definition valid_entry :: "json \<Rightarrow> bool" where
  "valid_entry r =
     (truthy (opt_get (Some r) ''id'') \<and> truthy (opt_get (Some r) ''state'') \<and>
      not_null (opt_get (opt_get (Some r) ''meta'') ''ts''))"

text \<open>
  The assignment \<open>r.game = gameId()\<close> on an object: an existing property keeps its place,
  a new one goes last. Every entry that passes the filter is an object.
\<close>

fun assign :: "string \<Rightarrow> json \<Rightarrow> (string \<times> json) list \<Rightarrow> (string \<times> json) list" where
  "assign k v [] = [(k, v)]"
| "assign k v ((k', v') # kvs) = (if k' = k then (k, v) # kvs else (k', v') # assign k v kvs)"

definition set_game :: "string \<Rightarrow> json \<Rightarrow> json" where
  "set_game g r = (case r of JObj kvs \<Rightarrow> JObj (assign ''game'' (JStr g) kvs) | _ \<Rightarrow> r)"

text \<open>
  The object store takes its key from the key path \<open>id\<close>. A number, a string and an array
  of keys are keys; \<open>put\<close> throws a \<open>DataError\<close> for an object whose \<open>id\<close> is anything
  else, and stores nothing then. The error stands for the browser's exception, whose
  text is none of the three messages that the handler of \<open>import\<close> keeps.
\<close>

fun valid_key :: "json \<Rightarrow> bool" where
  "valid_key (JNum q) = True"
| "valid_key (JStr s) = True"
| "valid_key (JArr xs) = list_all valid_key xs"
| "valid_key JNull = False"
| "valid_key (JBool b) = False"
| "valid_key (JObj kvs) = False"

definition key_of :: "json \<Rightarrow> json option" where
  "key_of r = opt_get (Some r) ''id''"

definition has_key :: "json \<Rightarrow> bool" where
  "has_key r = (case key_of r of None \<Rightarrow> False | Some k \<Rightarrow> valid_key k)"

definition DataError :: error where
  "DataError = Error ''DataError'' None"

definition put_entry :: "json \<Rightarrow> json list \<Rightarrow> error option \<times> json list" where
  "put_entry r st = (if has_key r then (None, DB_put key_of r st) else (Some DataError, st))"

text \<open>
  \<open>Promise.all\<close> over the puts: every put runs, in the order of the entries; the call
  rejects with the first rejection.
\<close>

fun put_all :: "json list \<Rightarrow> json list \<Rightarrow> error option \<times> json list" where
  "put_all [] st = (None, st)"
| "put_all (r # rs) st =
     (case put_entry r st of
        (e, st') \<Rightarrow>
          (case put_all rs st' of
             (e', st'') \<Rightarrow> (case e of Some x \<Rightarrow> Some x | None \<Rightarrow> e', st'')))"

text \<open>
  \<open>import(json)\<close>, given what \<open>JSON.parse(json)\<close> returned or threw: the body of the
  \<open>try\<close>, then the handler, which keeps the message of the three errors of the body and
  replaces every other one.
\<close>

definition import_try :: "string \<Rightarrow> error + json \<Rightarrow> json list \<Rightarrow> error option \<times> json list" where
  "import_try g parsed st =
     (case parsed of
        Inl e \<Rightarrow> (Some e, st)
      | Inr (JArr entries) \<Rightarrow>
          if version_of entries \<noteq> JNum (of_int METADATA_FORMAT_VERSION)
          then (Some (Error ''Incompatible save version'' None), st)
          else
            (let valid = filter valid_entry entries
             in if valid = [] then (Some (Error ''No valid saves found in file.'' None), st)
                else put_all (map (set_game g) valid) st)
      | Inr _ \<Rightarrow> (Some (Error ''Invalid format'' None), st))"

definition SaveManager_import ::
  "string \<Rightarrow> error + json \<Rightarrow> json list \<Rightarrow> error option \<times> json list" where
  "SaveManager_import g parsed st =
     (case import_try g parsed st of
        (None, st') \<Rightarrow> (None, st')
      | (Some err, st') \<Rightarrow>
          (Some (Error
             (if message err = ''Invalid format'' \<or> message err = ''No valid saves found in file.''
                 \<or> message err = ''Incompatible save version''
              then message err else ''Invalid or corrupted JSON file.'')
             (Some err)),
           st'))"

section \<open>Vocabulary of the properties\<close>

text \<open>
  The quick records of a title as they lie in the store, and the slots they hold.
  \<open>slots_ok\<close>: no slot is held twice and every slot lies in \<open>1..QUICK_SLOTS\<close>.
  \<open>succeeds\<close>: the call captures a state and encodes it.
\<close>

definition quick_records :: "string \<Rightarrow> save list \<Rightarrow> save list" where
  "quick_records g st = filter (\<lambda>r. game r = g \<and> quick (meta r) \<noteq> None) st"

definition slots_in_use :: "string \<Rightarrow> save list \<Rightarrow> int option list" where
  "slots_in_use g st = map (\<lambda>r. quick (meta r)) (quick_records g st)"

definition slots_ok :: "string \<Rightarrow> save list \<Rightarrow> bool" where
  "slots_ok g st =
     (distinct (slots_in_use g st) \<and> set (slots_in_use g st) \<subseteq> Some ` {1..QUICK_SLOTS})"

definition succeeds :: "('a, 'n) host \<Rightarrow> 'a call \<Rightarrow> bool" where
  "succeeds H C =
     (case capture C of
        Inl e \<Rightarrow> False
      | Inr s \<Rightarrow> (case enc_state H (compression C) s of Inl e \<Rightarrow> False | Inr p \<Rightarrow> True))"

text \<open>
  The default name as the specification words it: one plus the largest integer \<open>M\<close> over
  the manual records named exactly \<open>Save M\<close>, and 1 when there is none. \<open>decimal\<close> is the
  value of a decimal numeral.
\<close>

definition is_digit :: "int \<Rightarrow> bool" where
  "is_digit c = (48 \<le> c \<and> c \<le> 57)"

definition decimal :: "jstring \<Rightarrow> int" where
  "decimal ds = foldl (\<lambda>a c. a * 10 + (c - 48)) 0 ds"







section \<open>Sample data\<close>

text \<open>
  A host for the samples. Its numbers are the integers, \<open>None\<close> standing for \<open>NaN\<close>; its
  \<open>Number\<close> reads the blank text as 0 and a decimal numeral, with or without an exponent
  part, as the engine does, and every other text as \<open>NaN\<close> (the engine reads more forms).
\<close>

definition sample_Number :: "jstring \<Rightarrow> int option" where
  "sample_Number t =
     (let u = js_trim t; m = takeWhile is_digit u; r = dropWhile is_digit u
      in if u = [] then Some 0
         else if m \<noteq> [] \<and> r = [] then Some (decimal m)
         else if m \<noteq> [] \<and> take 1 r = js ''e'' \<and> tl r \<noteq> [] \<and> list_all is_digit (tl r)
         then Some (decimal m * 10 ^ nat (decimal (tl r)))
         else None)"

fun sample_max :: "int option list \<Rightarrow> int option" where
  "sample_max [] = None"
| "sample_max (None # ns) = None"
| "sample_max [Some x] = Some x"
| "sample_max (Some x # n # ns) =
     (case sample_max (n # ns) of None \<Rightarrow> None | Some y \<Rightarrow> Some (max x y))"

definition sample_host :: "(string, int option) host" where
  "sample_host =
     \<lparr>JSON_stringify = Inr,
      JSON_parse = (\<lambda>t. if t = ''{'' then Inl (Error ''Unexpected end of JSON input'' None) else Inr t),
      LZString = Some \<lparr>compressToBase64 = rev, decompressFromBase64 = (\<lambda>t. Some (rev t))\<rparr>,
      sceneName = (\<lambda>s. ''startup''),
      gameId = ''mygame'',
      Number = sample_Number,
      isNaN = (\<lambda>n. n = None),
      Math_max = sample_max,
      num_lit = Some,
      num_add = (\<lambda>a b. case a of None \<Rightarrow> None | Some x \<Rightarrow> (case b of None \<Rightarrow> None | Some y \<Rightarrow> Some (x + y))),
      num_text = (\<lambda>n. case n of None \<Rightarrow> js ''NaN'' | Some v \<Rightarrow> js (show_int v)),
      TypeError = (\<lambda>a. Error ''Cannot read properties of undefined'' None)\<rparr>"

definition sample_call :: "nat \<Rightarrow> string call" where
  "sample_call n =
     \<lparr>capture = Inr ''{}'', compression = True, now_id = 1000 + int n, uid = ''u'',
      now_ts = 1000 + int n\<rparr>"

definition sample_save :: "string \<Rightarrow> string \<Rightarrow> int \<Rightarrow> int option \<Rightarrow> save" where
  "sample_save i nm t q =
     \<lparr>state = ''{}'', enc = STATE_PLAIN, id' = i, game = ''mygame'',
      meta = \<lparr>name = js nm, scene = ''startup'', ts = t, quick = q, fmt = 1\<rparr>\<rparr>"

definition sample_full :: "save list" where
  "sample_full =
     [sample_save ''a'' ''Slot 1/5'' 30 (Some 1),
      sample_save ''b'' ''Slot 2/5'' 10 (Some 2),
      sample_save ''c'' ''Slot 3/5'' 10 (Some 3),
      sample_save ''d'' ''Slot 4/5'' 40 (Some 4),
      sample_save ''e'' ''Slot 5/5'' 50 (Some 5),
      sample_save ''f'' ''Save 1'' 5 None]"

definition sample_entry :: "json \<Rightarrow> rat \<Rightarrow> json" where
  "sample_entry i v =
     JObj [(''id'', i), (''game'', JStr ''other''), (''state'', JStr ''{}''),
           (''meta'', JObj [(''name'', JStr ''Save 1''), (''ts'', JNum 7), (''fmt'', JNum v)])]"



definition sample_no_id :: json where
  "sample_no_id =
     JObj [(''game'', JStr ''other''), (''state'', JStr ''{}''),
           (''meta'', JObj [(''name'', JStr ''Save 2''), (''ts'', JNum 8), (''fmt'', JNum 1)])]"

definition sample_no_version :: json where
  "sample_no_version =
     JObj [(''id'', JStr ''a''), (''game'', JStr ''other''), (''state'', JStr ''{}''),
           (''meta'', JObj [(''name'', JStr ''Save 1''), (''ts'', JNum 7)])]"








section \<open>The store and the slot rotation\<close>

lemma set_DB_list: "set (DB_list g st) = {r \<in> set st. game r = g}"
  by (auto simp: DB_list_def)

lemma set_quick_saves: "set (quick_saves g st) = set (quick_records g st)"
  by (auto simp: quick_saves_def quick_records_def set_DB_list)

lemma length_quick_saves: "length (quick_saves g st) = length (quick_records g st)"
  by (simp add: quick_saves_def quick_records_def DB_list_def filter_sort conj_commute)

lemma delete_slot_filter:
  "delete_slot s qs st = filter (\<lambda>x. id' x \<notin> id' ` {r \<in> set qs. quick (meta r) = Some s}) st"
proof (induction qs arbitrary: st)
  case Nil
  show ?case by (simp add: delete_slot_def)
next
  case (Cons q qs)
  have "delete_slot s (q # qs) st =
      delete_slot s qs (if quick (meta q) = Some s then DB_delete id' (id' q) st else st)"
    by (simp add: delete_slot_def)
  also have "\<dots> = filter (\<lambda>x. id' x \<notin> id' ` {r \<in> set (q # qs). quick (meta r) = Some s}) st"
    by (auto simp: Cons.IH DB_delete_def intro!: filter_cong)
  finally show ?case .
qed

lemma quick_records_filter:
  "quick_records g (filter P st) = filter P (quick_records g st)"
  by (auto simp: quick_records_def intro!: filter_cong)

lemma quick_records_delete_slot:
  "quick_records g (delete_slot s (quick_saves g st) st) =
     filter (\<lambda>x. id' x \<notin> id' ` {r \<in> set (quick_records g st). quick (meta r) = Some s})
       (quick_records g st)"
  by (simp add: delete_slot_filter quick_records_filter set_quick_saves)

lemma slot_gone:
  "r \<in> set (quick_records g (delete_slot s (quick_saves g st) st)) \<Longrightarrow> quick (meta r) \<noteq> Some s"
  by (auto simp: quick_records_delete_slot)

lemma quick_records_put:
  "game x = g \<Longrightarrow> quick (meta x) \<noteq> None \<Longrightarrow>
   quick_records g (DB_put id' x st) = x # filter (\<lambda>r. id' r \<noteq> id' x) (quick_records g st)"
  by (simp add: DB_put_def quick_records_def) (auto intro!: filter_cong)

lemma target_slot_range_low:
  "int (length qs) < QUICK_SLOTS \<Longrightarrow> 1 \<le> target_slot qs \<and> target_slot qs \<le> QUICK_SLOTS"
  by (auto simp: target_slot_def QUICK_SLOTS_def split: option.splits dest!: find_Some_iff[THEN iffD1])

lemma target_slot_full:
  "\<not> int (length qs) < QUICK_SLOTS \<Longrightarrow> \<forall>r \<in> set qs. quick (meta r) \<noteq> None \<Longrightarrow>
   \<exists>r \<in> set qs. quick (meta r) = Some (target_slot qs) \<and> r = hd qs"
  by (cases qs) (auto simp: target_slot_def QUICK_SLOTS_def split: option.splits)

lemma quick_saves_all_quick: "\<forall>r \<in> set (quick_saves g st). quick (meta r) \<noteq> None"
  by (auto simp: quick_saves_def)

lemma target_slot_in_range:
  assumes "slots_ok g st"
  shows "Some (target_slot (quick_saves g st)) \<in> Some ` {1..QUICK_SLOTS}"
proof (cases "int (length (quick_saves g st)) < QUICK_SLOTS")
  case True
  then show ?thesis using target_slot_range_low[OF True] by simp
next
  case False
  from target_slot_full[OF False quick_saves_all_quick]
  obtain r where r: "r \<in> set (quick_saves g st)" "quick (meta r) = Some (target_slot (quick_saves g st))"
    by blast
  then have "quick (meta r) \<in> set (slots_in_use g st)"
    unfolding slots_in_use_def set_quick_saves set_map by (intro imageI)
  with assms r show ?thesis by (auto simp: slots_ok_def)
qed

lemma slots_ok_filter: "slots_ok g st \<Longrightarrow> slots_ok g (filter P st)"
  by (auto simp: slots_ok_def slots_in_use_def quick_records_filter distinct_map_filter)

lemma slots_ok_delete_slot: "slots_ok g st \<Longrightarrow> slots_ok g (delete_slot s qs st)"
  by (simp add: delete_slot_filter slots_ok_filter)

lemma slots_ok_put:
  assumes ok: "slots_ok g st" and g: "game x = g" and q: "quick (meta x) = Some s"
    and r: "1 \<le> s" "s \<le> QUICK_SLOTS"
    and free: "\<forall>r \<in> set (quick_records g st). quick (meta r) \<noteq> Some s"
  shows "slots_ok g (DB_put id' x st)"
proof -
  have qr: "quick_records g (DB_put id' x st) = x # filter (\<lambda>r. id' r \<noteq> id' x) (quick_records g st)"
    using g q by (simp add: quick_records_put)
  have "slots_ok g (filter (\<lambda>r. id' r \<noteq> id' x) st)"
    using ok by (rule slots_ok_filter)
  then show ?thesis
    using q r free unfolding slots_ok_def slots_in_use_def qr
    by (auto simp: quick_records_filter)
qed

lemma slots_ok_quick:
  assumes "slots_ok (gameId H) st"
  shows "slots_ok (gameId H) (snd (SaveManager_quick H C st))"
proof -
  let ?g = "gameId H"
  let ?qs = "quick_saves ?g st"
  let ?s = "target_slot ?qs"
  let ?st = "delete_slot ?s ?qs st"
  have del: "slots_ok ?g ?st" using assms by (rule slots_ok_delete_slot)
  have rng: "1 \<le> ?s" "?s \<le> QUICK_SLOTS" using target_slot_in_range[OF assms] by auto
  have free: "\<forall>r \<in> set (quick_records ?g ?st). quick (meta r) \<noteq> Some ?s"
    using slot_gone by blast
  show ?thesis
  proof (cases "capture C")
    case (Inl e)
    then show ?thesis using del by (simp add: SaveManager_quick_def SaveManager_create_def Let_def)
  next
    case (Inr x)
    show ?thesis
    proof (cases "enc_state H (compression C) x")
      case (Inl e)
      then show ?thesis using del Inr by (simp add: SaveManager_quick_def SaveManager_create_def Let_def)
    next
      case (Inr p)
      have "slots_ok ?g (DB_put id' (new_save H C (slot_name ?s) (Some ?s) x p (DB_list ?g ?st)) ?st)"
        by (rule slots_ok_put[OF del _ _ rng free]) (simp_all add: new_save_def)
      then show ?thesis using \<open>capture C = Inr x\<close> Inr
        by (simp add: SaveManager_quick_def SaveManager_create_def Let_def)
    qed
  qed
qed

lemma slots_ok_quick_run:
  "slots_ok (gameId H) st \<Longrightarrow> slots_ok (gameId H) (snd (quick_run H Cs st))"
  by (induction Cs arbitrary: st) (simp_all add: Let_def slots_ok_quick)

lemma slots_ok_empty: "quick_records g st = [] \<Longrightarrow> slots_ok g st"
  by (simp add: slots_ok_def slots_in_use_def)

lemma slots_ok_length:
  assumes "slots_ok g st"
  shows "int (length (quick_records g st)) \<le> QUICK_SLOTS"
proof -
  have "length (quick_records g st) = length (slots_in_use g st)"
    by (simp add: slots_in_use_def)
  also have "\<dots> = card (set (slots_in_use g st))"
    using assms by (simp add: slots_ok_def distinct_card)
  also have "\<dots> \<le> card (Some ` {1..QUICK_SLOTS})"
    using assms by (intro card_mono) (auto simp: slots_ok_def)
  also have "\<dots> \<le> 5"
    by (simp add: card_image QUICK_SLOTS_def)
  finally show ?thesis by (simp add: QUICK_SLOTS_def)
qed

lemma all_used_length:
  assumes "\<forall>i \<in> {1..QUICK_SLOTS}. Some i \<in> set (map (\<lambda>r. quick (meta r)) qs)"
  shows "QUICK_SLOTS \<le> int (length qs)"
proof -
  let ?U = "set (map (\<lambda>r. quick (meta r)) qs)"
  have "Some ` {1..QUICK_SLOTS} \<subseteq> ?U" using assms by auto
  then have "card (Some ` {1..QUICK_SLOTS}) \<le> card ?U" by (intro card_mono) auto
  moreover have "card (Some ` {1..QUICK_SLOTS}) = 5" by (simp add: card_image QUICK_SLOTS_def)
  moreover have "card ?U \<le> length qs" using card_length[of "map (\<lambda>r. quick (meta r)) qs"] by simp
  ultimately show ?thesis by (simp add: QUICK_SLOTS_def)
qed

lemma target_slot_lowest:
  assumes less: "int (length qs) < QUICK_SLOTS"
  shows "Some (target_slot qs) \<notin> set (map (\<lambda>r. quick (meta r)) qs)"
    and "1 \<le> j \<Longrightarrow> j < target_slot qs \<Longrightarrow> Some j \<in> set (map (\<lambda>r. quick (meta r)) qs)"
proof -
  let ?U = "set (map (\<lambda>r. quick (meta r)) qs)"
  let ?P = "\<lambda>i. Some i \<notin> ?U"
  have ex: "\<exists>i \<in> {1..QUICK_SLOTS}. ?P i"
    using all_used_length[of qs] less by fastforce
  obtain i where f: "find ?P [1..QUICK_SLOTS] = Some i"
    using ex by (cases "find ?P [1..QUICK_SLOTS]") (auto simp: find_None_iff)
  then have t: "target_slot qs = i" using less by (simp add: target_slot_def)
  from f obtain k where k: "k < length [1..QUICK_SLOTS]" "?P ([1..QUICK_SLOTS] ! k)"
    "i = [1..QUICK_SLOTS] ! k" "\<forall>m<k. \<not> ?P ([1..QUICK_SLOTS] ! m)"
    unfolding find_Some_iff by blast
  show "Some (target_slot qs) \<notin> ?U" using k t by simp
  show "Some j \<in> ?U" if j: "1 \<le> j" "j < target_slot qs"
  proof -
    have ik: "i = 1 + int k" using k(1,3) by (simp add: QUICK_SLOTS_def)
    define m where "m = nat (j - 1)"
    have "m < k" "[1..QUICK_SLOTS] ! m = j"
      using j t ik k(1) by (auto simp: m_def QUICK_SLOTS_def)
    with k(4) show ?thesis by auto
  qed
qed

lemma delete_slot_absent:
  "\<forall>r \<in> set qs. quick (meta r) \<noteq> Some s \<Longrightarrow> delete_slot s qs st = st"
proof -
  assume "\<forall>r \<in> set qs. quick (meta r) \<noteq> Some s"
  then have e: "{r \<in> set qs. quick (meta r) = Some s} = {}" by blast
  show ?thesis unfolding delete_slot_filter e by simp
qed

lemma quick_low:
  assumes less: "int (length (quick_records (gameId H) st)) < QUICK_SLOTS"
    and cap: "capture C = Inr x" and en: "enc_state H (compression C) x = Inr p"
  shows "SaveManager_quick H C st =
     (None, DB_put id' (new_save H C (slot_name (target_slot (quick_saves (gameId H) st)))
        (Some (target_slot (quick_saves (gameId H) st))) x p (DB_list (gameId H) st)) st)"
proof -
  let ?qs = "quick_saves (gameId H) st"
  have "int (length ?qs) < QUICK_SLOTS" using less by (simp add: length_quick_saves)
  from target_slot_lowest(1)[OF this]
  have "\<forall>r \<in> set ?qs. quick (meta r) \<noteq> Some (target_slot ?qs)" by force
  then have "delete_slot (target_slot ?qs) ?qs st = st" by (rule delete_slot_absent)
  then show ?thesis using cap en
    by (simp add: SaveManager_quick_def SaveManager_create_def Let_def)
qed

lemma quick_fill:
  assumes "set (slots_in_use (gameId H) st) = Some ` {1..int k}"
    and "length (quick_records (gameId H) st) = k"
    and "k + length Cs \<le> 5"
    and "list_all (succeeds H) Cs"
    and "distinct (map (new_id H) Cs)"
    and "id' ` set (quick_records (gameId H) st) \<inter> new_id H ` set Cs = {}"
  shows "fst (quick_run H Cs st) = [int k + 1..int k + int (length Cs)] \<and>
    slots_in_use (gameId H) (snd (quick_run H Cs st)) =
      rev (map Some [int k + 1..int k + int (length Cs)]) @ slots_in_use (gameId H) st"
  using assms
proof (induction Cs arbitrary: st k)
  case Nil
  then show ?case by simp
next
  case (Cons C Cs)
  let ?g = "gameId H"
  let ?qs = "quick_saves ?g st"
  let ?s = "target_slot ?qs"
  have less: "int (length (quick_records ?g st)) < QUICK_SLOTS"
    using Cons.prems(2,3) by (simp add: QUICK_SLOTS_def)
  then have less': "int (length ?qs) < QUICK_SLOTS" by (simp add: length_quick_saves)
  have U: "set (map (\<lambda>r. quick (meta r)) ?qs) = Some ` {1..int k}"
    using Cons.prems(1) by (simp add: slots_in_use_def set_quick_saves)
  have s: "?s = int k + 1"
  proof -
    have a: "1 \<le> ?s" using target_slot_range_low[OF less'] by simp
    have b: "Some ?s \<notin> Some ` {1..int k}" using target_slot_lowest(1)[OF less'] U by simp
    have c: "\<not> int k + 1 < ?s"
    proof
      assume "int k + 1 < ?s"
      then have "Some (int k + 1) \<in> Some ` {1..int k}"
        using target_slot_lowest(2)[OF less', of "int k + 1"] U by simp
      then show False by auto
    qed
    from a b c show ?thesis by auto
  qed
  obtain x p where xp: "capture C = Inr x" "enc_state H (compression C) x = Inr p"
    using Cons.prems(4) by (auto simp: succeeds_def split: sum.splits)
  define y where "y = new_save H C (slot_name ?s) (Some ?s) x p (DB_list ?g st)"
  have st': "snd (SaveManager_quick H C st) = DB_put id' y st"
    using quick_low[OF less xp] by (simp add: y_def)
  have y: "game y = ?g" "quick (meta y) = Some (int k + 1)" "id' y = new_id H C"
    by (simp_all add: y_def new_save_def s)
  have nin: "new_id H C \<notin> id' ` set (quick_records ?g st)"
    using Cons.prems(6) by auto
  have "\<forall>r \<in> set (quick_records ?g st). id' r \<noteq> id' y"
  proof
    fix r assume "r \<in> set (quick_records ?g st)"
    then have "id' r \<in> id' ` set (quick_records ?g st)" by (rule imageI)
    with nin show "id' r \<noteq> id' y" unfolding y(3) by metis
  qed
  then have keep: "filter (\<lambda>r. id' r \<noteq> id' y) (quick_records ?g st) = quick_records ?g st"
    by (rule filter_True)
  have qr: "quick_records ?g (DB_put id' y st) = y # quick_records ?g st"
    using y(1,2) keep by (simp add: quick_records_put)
  have "fst (quick_run H Cs (DB_put id' y st)) = [int (Suc k) + 1..int (Suc k) + int (length Cs)] \<and>
    slots_in_use (gameId H) (snd (quick_run H Cs (DB_put id' y st))) =
      rev (map Some [int (Suc k) + 1..int (Suc k) + int (length Cs)]) @
      slots_in_use (gameId H) (DB_put id' y st)"
  proof (rule Cons.IH)
    show "set (slots_in_use ?g (DB_put id' y st)) = Some ` {1..int (Suc k)}"
      using Cons.prems(1) y(2) by (auto simp: slots_in_use_def qr)
    show "length (quick_records ?g (DB_put id' y st)) = Suc k"
      using Cons.prems(2) by (simp add: qr)
    show "Suc k + length Cs \<le> 5" using Cons.prems(3) by simp
    show "list_all (succeeds H) Cs" using Cons.prems(4) by simp
    show "distinct (map (new_id H) Cs)" using Cons.prems(5) by simp
    show "id' ` set (quick_records ?g (DB_put id' y st)) \<inter> new_id H ` set Cs = {}"
      using Cons.prems(5,6) y(3) unfolding qr by auto
  qed
  moreover have "[int k + 1..int k + int (length (C # Cs))] =
      (int k + 1) # [int (Suc k) + 1..int (Suc k) + int (length Cs)]"
  proof -
    have "[int k + 1..int k + int (length (C # Cs))] =
        (int k + 1) # [int k + 1 + 1..int k + int (length (C # Cs))]"
      by (rule upto_rec1) simp
    moreover have "int k + 1 + 1 = int (Suc k) + 1"
      "int k + int (length (C # Cs)) = int (Suc k) + int (length Cs)" by simp_all
    ultimately show ?thesis by (simp only:)
  qed
  moreover have "slots_in_use ?g (DB_put id' y st) = Some (int k + 1) # slots_in_use ?g st"
    using y(2) by (simp add: slots_in_use_def qr)
  ultimately show ?case
    using s st' by (simp only: quick_run.simps Let_def fst_conv snd_conv list.map rev.simps) simp
qed

lemma sort_key_hd_min:
  assumes "sort_key f xs = r # rest"
  shows "\<forall>x \<in> set xs. f r \<le> f x"
proof -
  have "sorted (map f (r # rest))" using sorted_sort_key[of f xs] assms by simp
  moreover have "set xs = set (r # rest)" using set_sort[of f xs] assms by simp
  ultimately show ?thesis by auto
qed

lemma sort_key_hd_first:
  assumes "sort_key f xs = r # rest"
  shows "r = hd (filter (\<lambda>x. f x = f r) xs)"
proof -
  have "filter (\<lambda>x. f x = f r) xs = filter (\<lambda>x. f x = f r) (sort_key f xs)"
    by (simp add: sort_key_stable)
  then show ?thesis using assms by simp
qed

lemma quick_full:
  assumes full: "QUICK_SLOTS \<le> int (length (quick_records (gameId H) st))"
  shows "\<exists>r rest. quick_saves (gameId H) st = r # rest
     \<and> r \<in> set (quick_records (gameId H) st)
     \<and> (\<forall>x \<in> set (quick_records (gameId H) st). ts (meta r) \<le> ts (meta x))
     \<and> r = hd (filter (\<lambda>x. ts (meta x) = ts (meta r))
               (filter (\<lambda>x. quick (meta x) \<noteq> None) (DB_list (gameId H) st)))
     \<and> quick (meta r) = Some (target_slot (quick_saves (gameId H) st))"
proof -
  let ?g = "gameId H"
  let ?qs = "quick_saves ?g st"
  have nl: "\<not> int (length ?qs) < QUICK_SLOTS" using full by (simp add: length_quick_saves)
  then obtain r rest where qs: "?qs = r # rest" by (cases ?qs) (auto simp: QUICK_SLOTS_def)
  have r: "r \<in> set (quick_records ?g st)" using qs set_quick_saves[of ?g st] by auto
  have mn: "\<forall>x \<in> set (quick_records ?g st). ts (meta r) \<le> ts (meta x)"
  proof -
    have "\<forall>x \<in> set (filter (\<lambda>r. quick (meta r) \<noteq> None) (DB_list ?g st)). ts (meta r) \<le> ts (meta x)"
      using qs unfolding quick_saves_def by (rule sort_key_hd_min)
    then show ?thesis by (simp add: quick_records_def set_DB_list conj_commute)
  qed
  have fst: "r = hd (filter (\<lambda>x. ts (meta x) = ts (meta r))
               (filter (\<lambda>x. quick (meta x) \<noteq> None) (DB_list ?g st)))"
    using qs unfolding quick_saves_def by (rule sort_key_hd_first)
  have "quick (meta r) = Some (target_slot ?qs)"
    using target_slot_full[OF nl quick_saves_all_quick] qs by auto
  with qs r mn fst show ?thesis by blast
qed

lemma kept_distinct:
  assumes "distinct (map id' st)"
  shows "filter (\<lambda>x. id' x \<notin> id' ` {y \<in> set (quick_records g st). quick (meta y) = Some s}) st =
    filter (\<lambda>x. \<not> (game x = g \<and> quick (meta x) = Some s)) st"
proof (rule filter_cong[OF refl])
  fix x assume x: "x \<in> set st"
  have inj: "inj_on id' (set st)" using assms by (simp add: distinct_map)
  have "id' x \<in> id' ` {y \<in> set (quick_records g st). quick (meta y) = Some s} \<longleftrightarrow>
      game x = g \<and> quick (meta x) = Some s"
  proof
    assume "id' x \<in> id' ` {y \<in> set (quick_records g st). quick (meta y) = Some s}"
    then obtain y where y: "y \<in> set st" "game y = g" "quick (meta y) = Some s" "id' x = id' y"
      by (auto simp: quick_records_def)
    then have "x = y" using inj x by (auto dest: inj_onD)
    then show "game x = g \<and> quick (meta x) = Some s" using y by simp
  next
    assume "game x = g \<and> quick (meta x) = Some s"
    then have "x \<in> {y \<in> set (quick_records g st). quick (meta y) = Some s}"
      using x by (simp add: quick_records_def)
    then show "id' x \<in> id' ` {y \<in> set (quick_records g st). quick (meta y) = Some s}"
      by (rule imageI)
  qed
  then show "(id' x \<notin> id' ` {y \<in> set (quick_records g st). quick (meta y) = Some s}) =
      (\<not> (game x = g \<and> quick (meta x) = Some s))"
    by simp
qed

lemma quick_unfold:
  "SaveManager_quick H C st =
     (let s = target_slot (quick_saves (gameId H) st);
          kept = filter (\<lambda>x. id' x \<notin> id' ` {y \<in> set (quick_records (gameId H) st). quick (meta y) = Some s}) st
      in case capture C of
           Inl e \<Rightarrow> (Some e, kept)
         | Inr x \<Rightarrow>
             (case enc_state H (compression C) x of
                Inl e \<Rightarrow> (Some e, kept)
              | Inr p \<Rightarrow> (None, DB_put id' (new_save H C (slot_name s) (Some s) x p (DB_list (gameId H) kept)) kept)))"
  by (simp add: SaveManager_quick_def SaveManager_create_def Let_def delete_slot_filter set_quick_saves
      split: sum.splits)

section \<open>Claims about the quick-save slots\<close>

text \<open>
  C1. Slot exclusivity: take any store without quick records of the title and any
  sequence of \<open>quick()\<close> calls, whatever each call captures, whichever clock readings and
  ids it draws. After each call (after the first \<open>n\<close> calls, for every \<open>n\<close>) no two quick
  records of the title hold the same slot, and the title has at most \<open>QUICK_SLOTS\<close> = 5
  quick records.
\<close>

theorem quick_slots_exclusive:
  assumes "quick_records (gameId H) st = []"
  shows "distinct (slots_in_use (gameId H) (snd (quick_run H (take n Cs) st))) \<and>
    int (length (quick_records (gameId H) (snd (quick_run H (take n Cs) st)))) \<le> QUICK_SLOTS"
proof -
  have "slots_ok (gameId H) (snd (quick_run H (take n Cs) st))"
    using assms by (intro slots_ok_quick_run slots_ok_empty)
  then show ?thesis
    using slots_ok_length by (auto simp: slots_ok_def)
qed

theorem quick_slots_exclusive_witness:
  "quick_records (gameId sample_host) [sample_save ''f'' ''Save 1'' 5 None] = [] \<and>
   distinct (slots_in_use (gameId sample_host)
     (snd (quick_run sample_host (take 7 (map sample_call [1, 2, 3, 4, 5, 6, 7]))
        [sample_save ''f'' ''Save 1'' 5 None]))) \<and>
   int (length (quick_records (gameId sample_host)
     (snd (quick_run sample_host (take 7 (map sample_call [1, 2, 3, 4, 5, 6, 7]))
        [sample_save ''f'' ''Save 1'' 5 None])))) \<le> QUICK_SLOTS"
proof -
  have h: "quick_records (gameId sample_host) [sample_save ''f'' ''Save 1'' 5 None] = []"
    by (simp add: quick_records_def sample_save_def)
  show ?thesis
    using h quick_slots_exclusive [OF h, of 7 "map sample_call [1, 2, 3, 4, 5, 6, 7]"] by blast
qed

text \<open>
  C4. Lowest free slot: when the title has fewer than \<open>QUICK_SLOTS\<close> quick records,
  \<open>quick()\<close> targets the lowest slot of \<open>1..QUICK_SLOTS\<close> that no quick record of the title
  holds, deletes nothing, and (when the capture and the encoding succeed) puts the new
  record, in that slot, into the store. Slot fill order: from a store without quick
  records of the title, five calls in a row that succeed and draw five different ids
  target the slots 1, 2, 3, 4, 5 in this order and leave exactly these slots in use.
\<close>

theorem quick_lowest_free_slot:
  "(int (length (quick_records (gameId H) st)) < QUICK_SLOTS \<longrightarrow>
      (let s = target_slot (quick_saves (gameId H) st)
       in 1 \<le> s \<and> s \<le> QUICK_SLOTS \<and> Some s \<notin> set (slots_in_use (gameId H) st) \<and>
          (\<forall>j. 1 \<le> j \<and> j < s \<longrightarrow> Some j \<in> set (slots_in_use (gameId H) st)) \<and>
          (\<forall>x p. capture C = Inr x \<and> enc_state H (compression C) x = Inr p \<longrightarrow>
             SaveManager_quick H C st =
               (None,
                DB_put id' (new_save H C (slot_name s) (Some s) x p (DB_list (gameId H) st)) st)))) \<and>
   (quick_records (gameId H) st = [] \<and> length Cs = 5 \<and> list_all (succeeds H) Cs \<and>
    distinct (map (new_id H) Cs) \<longrightarrow>
      fst (quick_run H Cs st) = [1, 2, 3, 4, 5] \<and>
      slots_in_use (gameId H) (snd (quick_run H Cs st)) = [Some 5, Some 4, Some 3, Some 2, Some 1])"
proof (intro conjI impI)
  assume less: "int (length (quick_records (gameId H) st)) < QUICK_SLOTS"
  let ?qs = "quick_saves (gameId H) st"
  have less': "int (length ?qs) < QUICK_SLOTS" using less by (simp add: length_quick_saves)
  have U: "set (map (\<lambda>r. quick (meta r)) ?qs) = set (slots_in_use (gameId H) st)"
    by (simp add: slots_in_use_def set_quick_saves)
  show "let s = target_slot ?qs
       in 1 \<le> s \<and> s \<le> QUICK_SLOTS \<and> Some s \<notin> set (slots_in_use (gameId H) st) \<and>
          (\<forall>j. 1 \<le> j \<and> j < s \<longrightarrow> Some j \<in> set (slots_in_use (gameId H) st)) \<and>
          (\<forall>x p. capture C = Inr x \<and> enc_state H (compression C) x = Inr p \<longrightarrow>
             SaveManager_quick H C st =
               (None,
                DB_put id' (new_save H C (slot_name s) (Some s) x p (DB_list (gameId H) st)) st))"
    unfolding Let_def
    using target_slot_range_low[OF less'] target_slot_lowest[OF less'] quick_low[OF less]
    unfolding U by blast
next
  assume a: "quick_records (gameId H) st = [] \<and> length Cs = 5 \<and> list_all (succeeds H) Cs \<and>
    distinct (map (new_id H) Cs)"
  have "fst (quick_run H Cs st) = [int 0 + 1..int 0 + int (length Cs)] \<and>
    slots_in_use (gameId H) (snd (quick_run H Cs st)) =
      rev (map Some [int 0 + 1..int 0 + int (length Cs)]) @ slots_in_use (gameId H) st"
    using a by (intro quick_fill) (simp_all add: slots_in_use_def)
  moreover have "[int 0 + 1..int 0 + int (length Cs)] = [1, 2, 3, 4, 5]"
    using a by (simp add: upto_rec1)
  ultimately show "fst (quick_run H Cs st) = [1, 2, 3, 4, 5]"
    and "slots_in_use (gameId H) (snd (quick_run H Cs st)) = [Some 5, Some 4, Some 3, Some 2, Some 1]"
    using a by (simp_all add: slots_in_use_def)
qed

theorem quick_lowest_free_slot_witness:
  "int (length (quick_records (gameId sample_host) [sample_save ''a'' ''Slot 1/5'' 30 (Some 1)]))
     < QUICK_SLOTS \<and>
   target_slot (quick_saves (gameId sample_host) [sample_save ''a'' ''Slot 1/5'' 30 (Some 1)]) = 2 \<and>
   quick_records (gameId sample_host) [] = [] \<and>
   length (map sample_call [1, 2, 3, 4, 5]) = 5 \<and>
   list_all (succeeds sample_host) (map sample_call [1, 2, 3, 4, 5]) \<and>
   distinct (map (new_id sample_host) (map sample_call [1, 2, 3, 4, 5])) \<and>
   fst (quick_run sample_host (map sample_call [1, 2, 3, 4, 5]) []) = [1, 2, 3, 4, 5]"
proof -
  let ?st = "[sample_save ''a'' ''Slot 1/5'' 30 (Some 1)]"
  let ?Cs = "map sample_call [1, 2, 3, 4, 5]"
  have h1: "int (length (quick_records (gameId sample_host) ?st)) < QUICK_SLOTS"
    by (simp add: quick_records_def sample_save_def QUICK_SLOTS_def)
  have u: "slots_in_use (gameId sample_host) ?st = [Some 1]"
    by (simp add: slots_in_use_def quick_records_def sample_save_def sample_host_def)
  have h2: "quick_records (gameId sample_host) [] = [] \<and> length ?Cs = 5 \<and>
      list_all (succeeds sample_host) ?Cs \<and> distinct (map (new_id sample_host) ?Cs)"
    by code_simp
  from quick_lowest_free_slot [of sample_host ?st "sample_call 1" ?Cs] h1
  have s: "1 \<le> target_slot (quick_saves (gameId sample_host) ?st)"
    "Some (target_slot (quick_saves (gameId sample_host) ?st)) \<notin> set (slots_in_use (gameId sample_host) ?st)"
    "\<forall>j. 1 \<le> j \<and> j < target_slot (quick_saves (gameId sample_host) ?st) \<longrightarrow>
       Some j \<in> set (slots_in_use (gameId sample_host) ?st)"
    unfolding Let_def by blast+
  have "target_slot (quick_saves (gameId sample_host) ?st) = 2"
  proof -
    let ?s = "target_slot (quick_saves (gameId sample_host) ?st)"
    have "?s \<noteq> 1" using s(2) u by auto
    moreover have "\<not> 2 < ?s" using s(3)[rule_format, of 2] u by auto
    ultimately show ?thesis using s(1) by linarith
  qed
  moreover from quick_lowest_free_slot [of sample_host "[]" "sample_call 1" ?Cs] h2
  have "fst (quick_run sample_host ?Cs []) = [1, 2, 3, 4, 5]" by blast
  ultimately show ?thesis using h1 h2 by blast
qed

lemma js_trim_ends: "\<not> is_ws a \<Longrightarrow> \<not> is_ws b \<Longrightarrow> js_trim (a # xs @ [b]) = a # xs @ [b]"
  by (simp add: js_trim_def)

lemma slot_name_text: "slot_name s = js ''Slot '' @ js (show_int s) @ js ''/5''"
  by (simp add: slot_name_def js_def show_int_def QUICK_SLOTS_def digits10.simps digit_char_def)

lemma js_trim_slot_name: "js_trim (slot_name s) = slot_name s \<and> slot_name s \<noteq> []"
proof -
  have e: "slot_name s = 83 # ([108, 111, 116, 32] @ js (show_int s) @ [47]) @ [53]"
    by (simp add: slot_name_text) (simp add: js_def)
  have "js_trim (83 # ([108, 111, 116, 32] @ js (show_int s) @ [47]) @ [53]) =
      83 # ([108, 111, 116, 32] @ js (show_int s) @ [47]) @ [53]"
    by (rule js_trim_ends) (simp_all add: is_ws_def)
  then show ?thesis unfolding e by simp
qed

lemma quick_put:
  "DB_put id' (new_save H C (slot_name s) (Some s) x p rows) kept =
     \<lparr>state = state p, enc = enc p,
       id' = gameId H @ ''_'' @ show_int (now_id C) @ ''_'' @ uid C,
       game = gameId H,
       meta = \<lparr>name = js ''Slot '' @ js (show_int s) @ js ''/5'', scene = sceneName H x,
               ts = now_ts C, quick = Some s, fmt = 1\<rparr>\<rparr>
     # filter (\<lambda>y. id' y \<noteq> gameId H @ ''_'' @ show_int (now_id C) @ ''_'' @ uid C) kept"
  using js_trim_slot_name [of s]
  by (simp add: DB_put_def new_save_def new_id_def METADATA_FORMAT_VERSION_def slot_name_text)

text \<open>
  C5. Eviction: when the title has \<open>QUICK_SLOTS\<close> quick records or more, \<open>quick()\<close> targets
  the slot \<open>s\<close> of the record \<open>r\<close> at the head of the ascending sort: no quick record of the
  title is older than \<open>r\<close>, and among the quick records with its timestamp \<open>r\<close> comes first
  in the listing handed to the sort. Every record stored under the id of a quick record
  that holds \<open>s\<close> is deleted (\<open>kept\<close> is what remains, with no record of the title in slot
  \<open>s\<close>; in a store that holds each id once these are the title's records in slot \<open>s\<close>
  and no others), also when the capture then fails. When the capture and the encoding
  succeed, the store after the call is \<open>kept\<close> without the record under the new id, and
  in front of it the new record: the encoded payload under the id
  \<open>`${gameId()}_${now()}_${uid()}`\<close>, with the running title, the name \<open>Slot s/5\<close>, the
  scene of the captured state, the clock reading, the slot \<open>s\<close> and the format version 1.
\<close>

theorem quick_evicts_oldest:
  assumes "QUICK_SLOTS \<le> int (length (quick_records (gameId H) st))"
  shows "\<exists>r rest s.
     quick_saves (gameId H) st = r # rest \<and> quick (meta r) = Some s \<and>
     target_slot (quick_saves (gameId H) st) = s \<and>
     r \<in> set (quick_records (gameId H) st) \<and>
     (\<forall>x \<in> set (quick_records (gameId H) st). ts (meta r) \<le> ts (meta x)) \<and>
     r = hd (filter (\<lambda>x. ts (meta x) = ts (meta r))
               (filter (\<lambda>x. quick (meta x) \<noteq> None) (DB_list (gameId H) st))) \<and>
     (let kept = filter (\<lambda>x. id' x \<notin> id' ` {y \<in> set (quick_records (gameId H) st). quick (meta y) = Some s}) st
      in (\<forall>y \<in> set kept. \<not> (game y = gameId H \<and> quick (meta y) = Some s)) \<and>
         (distinct (map id' st) \<longrightarrow>
            kept = filter (\<lambda>x. \<not> (game x = gameId H \<and> quick (meta x) = Some s)) st) \<and>
         SaveManager_quick H C st =
           (case capture C of
              Inl e \<Rightarrow> (Some e, kept)
            | Inr x \<Rightarrow>
                (case enc_state H (compression C) x of
                   Inl e \<Rightarrow> (Some e, kept)
                 | Inr p \<Rightarrow>
                     (None,
                      \<lparr>state = state p, enc = enc p,
                        id' = gameId H @ ''_'' @ show_int (now_id C) @ ''_'' @ uid C,
                        game = gameId H,
                        meta = \<lparr>name = js ''Slot '' @ js (show_int s) @ js ''/5'',
                                scene = sceneName H x, ts = now_ts C, quick = Some s, fmt = 1\<rparr>\<rparr>
                      # filter (\<lambda>y. id' y \<noteq> gameId H @ ''_'' @ show_int (now_id C) @ ''_'' @ uid C)
                          kept))))"
proof -
  let ?g = "gameId H"
  from quick_full[OF assms] obtain r rest where
    r: "quick_saves ?g st = r # rest" "r \<in> set (quick_records ?g st)"
       "\<forall>x \<in> set (quick_records ?g st). ts (meta r) \<le> ts (meta x)"
       "r = hd (filter (\<lambda>x. ts (meta x) = ts (meta r))
               (filter (\<lambda>x. quick (meta x) \<noteq> None) (DB_list ?g st)))"
       "quick (meta r) = Some (target_slot (quick_saves ?g st))"
    by blast
  let ?s = "target_slot (quick_saves ?g st)"
  let ?kept = "filter (\<lambda>x. id' x \<notin> id' ` {y \<in> set (quick_records ?g st). quick (meta y) = Some ?s}) st"
  let ?new = "\<lambda>x p. \<lparr>state = state p, enc = enc p,
                        id' = gameId H @ ''_'' @ show_int (now_id C) @ ''_'' @ uid C,
                        game = gameId H,
                        meta = \<lparr>name = js ''Slot '' @ js (show_int ?s) @ js ''/5'',
                                scene = sceneName H x, ts = now_ts C, quick = Some ?s, fmt = 1\<rparr>\<rparr>"
  have gone: "\<forall>y \<in> set ?kept. \<not> (game y = ?g \<and> quick (meta y) = Some ?s)"
    by (auto simp: quick_records_def)
  have run: "SaveManager_quick H C st =
           (case capture C of
              Inl e \<Rightarrow> (Some e, ?kept)
            | Inr x \<Rightarrow>
                (case enc_state H (compression C) x of
                   Inl e \<Rightarrow> (Some e, ?kept)
                 | Inr p \<Rightarrow>
                     (None,
                      ?new x p
                      # filter (\<lambda>y. id' y \<noteq> gameId H @ ''_'' @ show_int (now_id C) @ ''_'' @ uid C)
                          ?kept)))"
    by (simp add: quick_unfold Let_def quick_put split: sum.splits)
  show ?thesis
    unfolding Let_def
  proof (intro exI conjI)
    show "quick_saves ?g st = r # rest" by fact
    show "quick (meta r) = Some ?s" by fact
    show "target_slot (quick_saves ?g st) = ?s" by (rule refl)
    show "r \<in> set (quick_records ?g st)" by fact
    show "\<forall>x \<in> set (quick_records ?g st). ts (meta r) \<le> ts (meta x)" by fact
    show "r = hd (filter (\<lambda>x. ts (meta x) = ts (meta r))
               (filter (\<lambda>x. quick (meta x) \<noteq> None) (DB_list ?g st)))" by fact
    show "\<forall>y \<in> set ?kept. \<not> (game y = ?g \<and> quick (meta y) = Some ?s)" by fact
    show "distinct (map id' st) \<longrightarrow>
        ?kept = filter (\<lambda>x. \<not> (game x = ?g \<and> quick (meta x) = Some ?s)) st"
      using kept_distinct by blast
    show "SaveManager_quick H C st =
           (case capture C of
              Inl e \<Rightarrow> (Some e, ?kept)
            | Inr x \<Rightarrow>
                (case enc_state H (compression C) x of
                   Inl e \<Rightarrow> (Some e, ?kept)
                 | Inr p \<Rightarrow>
                     (None,
                      ?new x p
                      # filter (\<lambda>y. id' y \<noteq> gameId H @ ''_'' @ show_int (now_id C) @ ''_'' @ uid C)
                          ?kept)))"
      by fact
  qed
qed

theorem quick_evicts_oldest_witness:
  "QUICK_SLOTS \<le> int (length (quick_records (gameId sample_host) sample_full)) \<and>
   target_slot (quick_saves (gameId sample_host) sample_full) = 2 \<and>
   SaveManager_quick sample_host (sample_call 1) sample_full =
     (None,
      [\<lparr>state = ''}{'', enc = ''lz'', id' = ''mygame_1001_u'', game = ''mygame'',
        meta = \<lparr>name = js ''Slot 2/5'', scene = ''startup'', ts = 1001, quick = Some 2, fmt = 1\<rparr>\<rparr>,
       sample_save ''a'' ''Slot 1/5'' 30 (Some 1),
       sample_save ''c'' ''Slot 3/5'' 10 (Some 3),
       sample_save ''d'' ''Slot 4/5'' 40 (Some 4),
       sample_save ''e'' ''Slot 5/5'' 50 (Some 5),
       sample_save ''f'' ''Save 1'' 5 None])"
proof -
  have h: "QUICK_SLOTS \<le> int (length (quick_records (gameId sample_host) sample_full))"
    by code_simp
  have q: "quick_saves (gameId sample_host) sample_full =
      [sample_save ''b'' ''Slot 2/5'' 10 (Some 2), sample_save ''c'' ''Slot 3/5'' 10 (Some 3),
       sample_save ''a'' ''Slot 1/5'' 30 (Some 1), sample_save ''d'' ''Slot 4/5'' 40 (Some 4),
       sample_save ''e'' ''Slot 5/5'' 50 (Some 5)]"
    by code_simp
  have c: "capture (sample_call 1) = Inr ''{}''"
    "enc_state sample_host (compression (sample_call 1)) ''{}'' = Inr \<lparr>state = ''}{'', enc = ''lz''\<rparr>"
    by (simp_all add: sample_call_def sample_host_def enc_state_def STATE_LZ_def)
  have k: "filter (\<lambda>x. id' x \<notin> id' ` {y \<in> set (quick_records (gameId sample_host) sample_full).
                quick (meta y) = Some 2}) sample_full =
      [sample_save ''a'' ''Slot 1/5'' 30 (Some 1), sample_save ''c'' ''Slot 3/5'' 10 (Some 3),
       sample_save ''d'' ''Slot 4/5'' 40 (Some 4), sample_save ''e'' ''Slot 5/5'' 50 (Some 5),
       sample_save ''f'' ''Save 1'' 5 None]"
    by code_simp
  from quick_evicts_oldest [OF h, of "sample_call 1"] obtain r rest s where
    a: "quick_saves (gameId sample_host) sample_full = r # rest" "quick (meta r) = Some s"
      "target_slot (quick_saves (gameId sample_host) sample_full) = s"
      "SaveManager_quick sample_host (sample_call 1) sample_full =
         (case capture (sample_call 1) of
            Inl e \<Rightarrow>
              (Some e,
               filter (\<lambda>x. id' x \<notin> id' ` {y \<in> set (quick_records (gameId sample_host) sample_full).
                  quick (meta y) = Some s}) sample_full)
          | Inr x \<Rightarrow>
              (case enc_state sample_host (compression (sample_call 1)) x of
                 Inl e \<Rightarrow>
                   (Some e,
                    filter (\<lambda>x. id' x \<notin> id' ` {y \<in> set (quick_records (gameId sample_host) sample_full).
                       quick (meta y) = Some s}) sample_full)
               | Inr p \<Rightarrow>
                   (None,
                    \<lparr>state = state p, enc = enc p,
                      id' = gameId sample_host @ ''_'' @ show_int (now_id (sample_call 1)) @ ''_'' @
                            uid (sample_call 1),
                      game = gameId sample_host,
                      meta = \<lparr>name = js ''Slot '' @ js (show_int s) @ js ''/5'',
                              scene = sceneName sample_host x, ts = now_ts (sample_call 1),
                              quick = Some s, fmt = 1\<rparr>\<rparr>
                    # filter (\<lambda>y. id' y \<noteq> gameId sample_host @ ''_'' @
                                 show_int (now_id (sample_call 1)) @ ''_'' @ uid (sample_call 1))
                        (filter (\<lambda>x. id' x \<notin> id' ` {y \<in> set (quick_records (gameId sample_host) sample_full).
                           quick (meta y) = Some s}) sample_full))))"
    unfolding Let_def by blast
  have "r = sample_save ''b'' ''Slot 2/5'' 10 (Some 2)" using a(1) unfolding q by simp
  then have s: "s = 2" using a(2) by (simp add: sample_save_def)
  have "SaveManager_quick sample_host (sample_call 1) sample_full =
     (None,
      [\<lparr>state = ''}{'', enc = ''lz'', id' = ''mygame_1001_u'', game = ''mygame'',
        meta = \<lparr>name = js ''Slot 2/5'', scene = ''startup'', ts = 1001, quick = Some 2, fmt = 1\<rparr>\<rparr>,
       sample_save ''a'' ''Slot 1/5'' 30 (Some 1),
       sample_save ''c'' ''Slot 3/5'' 10 (Some 3),
       sample_save ''d'' ''Slot 4/5'' 40 (Some 4),
       sample_save ''e'' ''Slot 5/5'' 50 (Some 5),
       sample_save ''f'' ''Save 1'' 5 None])"
    using a(4) unfolding s k c sum.case
    by (simp add: sample_host_def sample_call_def sample_save_def js_def show_int_def
        digits10.simps digit_char_def)
  then show ?thesis using h a(3) s by simp
qed

section \<open>The default name on decimal digits\<close>
















section \<open>Claim about the default name\<close>




section \<open>Claims about the codec\<close>

text \<open>
  C2. Round trip: let \<open>x\<close> be serializable, that is, \<open>JSON.stringify\<close> returns a text for it
  that \<open>JSON.parse\<close> turns back into \<open>x\<close>, and let the compression library, when it is
  loaded, decompress what it compressed of that text. Then for either value of the
  compression setting \<open>enc\<close> returns a payload and \<open>dec\<close> of that payload returns \<open>x\<close>.
\<close>

theorem codec_round_trip:
  assumes "JSON_stringify H x = Inr txt"
    and "JSON_parse H txt = Inr x"
    and "\<forall>lz. LZString H = Some lz \<longrightarrow> decompressFromBase64 lz (compressToBase64 lz txt) = Some txt"
  shows "\<exists>p. enc_state H compress x = Inr p \<and> dec_record H p = Inr x"
proof (cases "LZString H")
  case None
  then show ?thesis
    using assms(1,2)
    by (simp add: enc_state_def dec_record_def dec_try_def STATE_PLAIN_def STATE_LZ_def)
next
  case (Some lz)
  then have "decompressFromBase64 lz (compressToBase64 lz txt) = Some txt"
    using assms(3) by simp
  then show ?thesis
    using Some assms(1,2)
    by (cases compress)
       (simp_all add: enc_state_def dec_record_def dec_try_def STATE_PLAIN_def STATE_LZ_def)
qed

theorem codec_round_trip_witness:
  "JSON_stringify sample_host ''{}'' = Inr ''{}'' \<and>
   JSON_parse sample_host ''{}'' = Inr ''{}'' \<and>
   enc_state sample_host True ''{}'' = Inr \<lparr>state = ''}{'', enc = STATE_LZ\<rparr> \<and>
   dec_record sample_host \<lparr>state = ''}{'', enc = STATE_LZ\<rparr> = Inr ''{}'' \<and>
   enc_state sample_host False ''{}'' = Inr \<lparr>state = ''{}'', enc = STATE_PLAIN\<rparr> \<and>
   dec_record sample_host \<lparr>state = ''{}'', enc = STATE_PLAIN\<rparr> = Inr ''{}''"
proof -
  have h1: "JSON_stringify sample_host ''{}'' = Inr ''{}''" by (simp add: sample_host_def)
  have h2: "JSON_parse sample_host ''{}'' = Inr ''{}''" by (simp add: sample_host_def)
  have h3: "\<forall>lz. LZString sample_host = Some lz \<longrightarrow>
      decompressFromBase64 lz (compressToBase64 lz ''{}'') = Some ''{}''"
    by (simp add: sample_host_def)
  have e1: "enc_state sample_host True ''{}'' = Inr \<lparr>state = ''}{'', enc = STATE_LZ\<rparr>"
    and e2: "enc_state sample_host False ''{}'' = Inr \<lparr>state = ''{}'', enc = STATE_PLAIN\<rparr>"
    by (simp_all add: enc_state_def sample_host_def)
  from codec_round_trip [OF h1 h2 h3, of True] e1
  have d1: "dec_record sample_host \<lparr>state = ''}{'', enc = STATE_LZ\<rparr> = Inr ''{}''" by auto
  from codec_round_trip [OF h1 h2 h3, of False] e2
  have d2: "dec_record sample_host \<lparr>state = ''{}'', enc = STATE_PLAIN\<rparr> = Inr ''{}''" by auto
  show ?thesis using h1 h2 e1 e2 d1 d2 by simp
qed

text \<open>
  C3, as stated, fails: without the compression library, decoding a record tagged \<open>lz\<close>
  does not raise the unavailable-library error as a distinct error. \<open>dec\<close> throws it
  inside its own \<open>try\<close>, whose handler wraps it, so the caller gets the error with the
  message of a corrupted record, the same message that a plain record with broken text
  gets; the unavailable-library error is only its cause.
\<close>

theorem dec_without_library_counterexample:
  "dec_record (sample_host\<lparr>LZString := None\<rparr>) \<lparr>state = ''}{'', enc = STATE_LZ\<rparr> =
     Inl (Error ''Corrupted save data or decode failure.''
            (Some (Error ''LZString unavailable for decompression.'' None))) \<and>
   dec_record (sample_host\<lparr>LZString := None\<rparr>) \<lparr>state = ''{'', enc = STATE_PLAIN\<rparr> =
     Inl (Error ''Corrupted save data or decode failure.''
            (Some (Error ''Unexpected end of JSON input'' None)))"
  by (simp add: dec_record_def dec_try_def sample_host_def STATE_LZ_def STATE_PLAIN_def)

text \<open>
  C3, amended. For every record tagged \<open>lz\<close>, when no compression library is loaded,
  \<open>dec\<close> fails: it returns no state, it does not read the payload as plain text (the
  result does not depend on \<open>JSON.parse\<close> or on the payload), and the error it throws is
  the corrupted-record error with the unavailable-library error as its cause.
\<close>

theorem dec_without_library:
  assumes "enc r = STATE_LZ" and "LZString H = None"
  shows "dec_record H r =
     Inl (Error ''Corrupted save data or decode failure.''
            (Some (Error ''LZString unavailable for decompression.'' None)))"
  using assms by (simp add: dec_record_def dec_try_def)

theorem dec_without_library_witness:
  "enc \<lparr>state = ''{}'', enc = STATE_LZ\<rparr> = STATE_LZ \<and>
   LZString (sample_host\<lparr>LZString := None\<rparr>) = None \<and>
   dec_record (sample_host\<lparr>LZString := None\<rparr>) \<lparr>state = ''{}'', enc = STATE_LZ\<rparr> =
     Inl (Error ''Corrupted save data or decode failure.''
            (Some (Error ''LZString unavailable for decompression.'' None)))"
proof -
  have h1: "enc \<lparr>state = ''{}'', enc = STATE_LZ\<rparr> = STATE_LZ" by simp
  have h2: "LZString (sample_host\<lparr>LZString := None\<rparr>) = None" by simp
  show ?thesis using h1 h2 dec_without_library [OF h1 h2] by simp
qed

section \<open>Claims about import\<close>

lemma version_of_current:
  "(version_of entries = JNum (of_int METADATA_FORMAT_VERSION)) =
   (opt_get (opt_get (first entries) ''meta'') ''fmt'' = Some (JNum 1))"
  by (auto simp: version_of_def Let_def truthy_def METADATA_FORMAT_VERSION_def
      split: option.splits json.splits)

lemma import_incompatible:
  assumes "opt_get (opt_get (first entries) ''meta'') ''fmt'' \<noteq> Some (JNum 1)"
  shows "SaveManager_import g (Inr (JArr entries)) st =
    (Some (Error ''Incompatible save version'' (Some (Error ''Incompatible save version'' None))), st)"
  using assms by (simp add: SaveManager_import_def import_try_def version_of_current)

lemma map_of_assign: "map_of (assign k v kvs) = (map_of kvs)(k \<mapsto> v)"
  by (induction kvs) (auto simp: fun_eq_iff)

lemma valid_entry_object: "valid_entry r \<Longrightarrow> \<exists>kvs. r = JObj kvs"
  by (cases r) (simp_all add: valid_entry_def opt_get_def truthy_def)

lemma set_game_reads:
  assumes "valid_entry r"
  shows "opt_get (Some (set_game g r)) ''game'' = Some (JStr g)"
    and "k \<noteq> ''game'' \<Longrightarrow> opt_get (Some (set_game g r)) k = opt_get (Some r) k"
  using valid_entry_object[OF assms] by (auto simp: set_game_def opt_get_def map_of_assign)

lemma key_of_set_game: "key_of (set_game g r) = key_of r"
  by (cases r) (simp_all add: key_of_def set_game_def opt_get_def map_of_assign)

lemma has_key_set_game: "has_key (set_game g r) = has_key r"
  by (simp add: has_key_def key_of_set_game)

lemma put_all_Cons:
  "put_all (r # rs) st =
     (case fst (put_entry r st) of
        Some x \<Rightarrow> Some x
      | None \<Rightarrow> fst (put_all rs (snd (put_entry r st))),
      snd (put_all rs (snd (put_entry r st))))"
  by (cases "put_entry r st"; cases "put_all rs (snd (put_entry r st))")
     (simp split: option.splits)

lemma put_all_store: "snd (put_all rs st) = fold (DB_put key_of) (filter has_key rs) st"
proof (induction rs arbitrary: st)
  case Nil
  show ?case by simp
next
  case (Cons r rs)
  show ?case unfolding put_all_Cons by (simp add: Cons.IH put_entry_def)
qed

lemma put_all_error:
  "fst (put_all rs st) = (if list_all has_key rs then None else Some DataError)"
proof (induction rs arbitrary: st)
  case Nil
  show ?case by simp
next
  case (Cons r rs)
  show ?case unfolding put_all_Cons by (simp add: Cons.IH put_entry_def)
qed

lemma import_store: "snd (SaveManager_import g parsed st) = snd (import_try g parsed st)"
  by (cases "import_try g parsed st") (simp add: SaveManager_import_def split: option.splits)

lemma import_error:
  "fst (SaveManager_import g parsed st) =
     (case fst (import_try g parsed st) of
        None \<Rightarrow> None
      | Some err \<Rightarrow>
          Some (Error
             (if message err = ''Invalid format'' \<or> message err = ''No valid saves found in file.''
                 \<or> message err = ''Incompatible save version''
              then message err else ''Invalid or corrupted JSON file.'')
             (Some err)))"
  by (cases "import_try g parsed st") (simp add: SaveManager_import_def split: option.splits)

lemma filter_has_key_set_game:
  "filter has_key (map (set_game g) rs) = map (set_game g) (filter has_key rs)"
  by (induction rs) (simp_all add: has_key_set_game)

lemma import_gate_passed:
  assumes "opt_get (opt_get (first entries) ''meta'') ''fmt'' = Some (JNum 1)"
  shows "import_try g (Inr (JArr entries)) st =
    (if filter valid_entry entries = [] then (Some (Error ''No valid saves found in file.'' None), st)
     else put_all (map (set_game g) (filter valid_entry entries)) st)"
  using assms by (simp add: import_try_def version_of_current Let_def)

lemma import_no_valid:
  assumes "opt_get (opt_get (first entries) ''meta'') ''fmt'' = Some (JNum 1)"
    and "filter valid_entry entries = []"
  shows "SaveManager_import g (Inr (JArr entries)) st =
    (Some (Error ''No valid saves found in file.'' (Some (Error ''No valid saves found in file.'' None))), st)"
  using assms by (simp add: SaveManager_import_def import_gate_passed)

lemma import_some_valid:
  assumes "opt_get (opt_get (first entries) ''meta'') ''fmt'' = Some (JNum 1)"
    and "filter valid_entry entries \<noteq> []"
  shows "snd (SaveManager_import g (Inr (JArr entries)) st) =
      fold (DB_put key_of) (map (set_game g) (filter (\<lambda>r. valid_entry r \<and> has_key r) entries)) st"
    and "fst (SaveManager_import g (Inr (JArr entries)) st) =
      (if list_all has_key (filter valid_entry entries) then None
       else Some (Error ''Invalid or corrupted JSON file.'' (Some DataError)))"
proof -
  let ?vs = "map (set_game g) (filter valid_entry entries)"
  have t: "import_try g (Inr (JArr entries)) st = put_all ?vs st"
    using assms by (simp add: import_gate_passed)
  have s: "snd (put_all ?vs st) =
      fold (DB_put key_of) (map (set_game g) (filter (\<lambda>r. valid_entry r \<and> has_key r) entries)) st"
    by (simp add: put_all_store filter_has_key_set_game conj_commute)
  have e: "fst (put_all ?vs st) =
      (if list_all has_key (filter valid_entry entries) then None else Some DataError)"
    by (simp add: put_all_error list_all_iff has_key_set_game)
  show "snd (SaveManager_import g (Inr (JArr entries)) st) =
      fold (DB_put key_of) (map (set_game g) (filter (\<lambda>r. valid_entry r \<and> has_key r) entries)) st"
    using s by (simp add: import_store t)
  show "fst (SaveManager_import g (Inr (JArr entries)) st) =
      (if list_all has_key (filter valid_entry entries) then None
       else Some (Error ''Invalid or corrupted JSON file.'' (Some DataError)))"
    using e by (simp add: import_error t DataError_def)
qed

text \<open>
  C7. Version gate: for every bundle that parses as a sequence, when the \<open>fmt\<close> of the
  first entry is not the number 1 (the engine's current format version), \<open>import\<close> fails
  with the error \<open>Incompatible save version\<close> and the store is as it was.
\<close>

theorem import_version_gate:
  assumes "opt_get (opt_get (first entries) ''meta'') ''fmt'' \<noteq>
      Some (JNum (of_int METADATA_FORMAT_VERSION))"
  shows "SaveManager_import g (Inr (JArr entries)) st =
    (Some (Error ''Incompatible save version'' (Some (Error ''Incompatible save version'' None))), st)"
  using assms by (intro import_incompatible) (simp add: METADATA_FORMAT_VERSION_def)

theorem import_version_gate_witness:
  "opt_get (opt_get (first [sample_entry (JStr ''a'') 2, sample_entry (JStr ''b'') 1]) ''meta'') ''fmt''
     \<noteq> Some (JNum (of_int METADATA_FORMAT_VERSION)) \<and>
   SaveManager_import ''mygame'' (Inr (JArr [sample_entry (JStr ''a'') 2, sample_entry (JStr ''b'') 1]))
     [sample_entry (JStr ''z'') 1] =
    (Some (Error ''Incompatible save version'' (Some (Error ''Incompatible save version'' None))),
     [sample_entry (JStr ''z'') 1])"
proof -
  have h: "opt_get (opt_get (first [sample_entry (JStr ''a'') 2, sample_entry (JStr ''b'') 1]) ''meta'') ''fmt''
     \<noteq> Some (JNum (of_int METADATA_FORMAT_VERSION))"
    by (simp add: first_def sample_entry_def opt_get_def METADATA_FORMAT_VERSION_def)
  show ?thesis
    using h import_version_gate [OF h, of "''mygame''" "[sample_entry (JStr ''z'') 1]"] by simp
qed

text \<open>
  C8, as stated, fails: an entry can pass the filter and still not be persisted. The
  filter asks for a truthy \<open>id\<close>; the object store takes only a string, a number or an
  array of keys as a key. In the bundle below both entries pass the version gate and the
  filter; the one whose \<open>id\<close> is \<open>true\<close> is not stored, \<open>import\<close> fails as for a corrupted
  file, and the other entry is stored all the same.
\<close>

theorem import_persists_valid_counterexample:
  "opt_get (opt_get (first [sample_entry (JStr ''a'') 1, sample_entry (JBool True) 1]) ''meta'') ''fmt'' =
     Some (JNum (of_int METADATA_FORMAT_VERSION)) \<and>
   filter valid_entry [sample_entry (JStr ''a'') 1, sample_entry (JBool True) 1] =
     [sample_entry (JStr ''a'') 1, sample_entry (JBool True) 1] \<and>
   SaveManager_import ''mygame''
      (Inr (JArr [sample_entry (JStr ''a'') 1, sample_entry (JBool True) 1])) [] =
     (Some (Error ''Invalid or corrupted JSON file.'' (Some DataError)),
      [set_game ''mygame'' (sample_entry (JStr ''a'') 1)])"
  by (simp add: SaveManager_import_def import_try_def version_of_def first_def sample_entry_def
      opt_get_def truthy_def not_null_def valid_entry_def METADATA_FORMAT_VERSION_def
      put_entry_def has_key_def key_of_def set_game_def DB_put_def DataError_def)

text \<open>
  C8, amended. For every bundle that passes the version gate: when no entry passes the
  filter (a truthy \<open>id\<close>, a truthy \<open>state\<close>, a \<open>meta.ts\<close> that is neither \<open>undefined\<close> nor
  \<open>null\<close>), \<open>import\<close> fails with \<open>No valid saves found in file.\<close> and the store is as it
  was. Otherwise the store afterwards is the store before with exactly the entries put,
  in the order of the bundle, that pass the filter and whose \<open>id\<close> is a key of the store;
  each is put with \<open>game\<close> set to the current title and every other property as it was;
  the call succeeds when every entry that passes the filter has such an \<open>id\<close>, and
  otherwise the puts of the others still happen and the call fails as for a corrupted
  file.
\<close>

theorem import_persists_valid:
  assumes "opt_get (opt_get (first entries) ''meta'') ''fmt'' =
      Some (JNum (of_int METADATA_FORMAT_VERSION))"
  shows "(filter valid_entry entries = [] \<longrightarrow>
      SaveManager_import g (Inr (JArr entries)) st =
        (Some (Error ''No valid saves found in file.''
                 (Some (Error ''No valid saves found in file.'' None))), st)) \<and>
    (filter valid_entry entries \<noteq> [] \<longrightarrow>
      snd (SaveManager_import g (Inr (JArr entries)) st) =
        fold (DB_put key_of)
          (map (set_game g) (filter (\<lambda>r. valid_entry r \<and> has_key r) entries)) st \<and>
      fst (SaveManager_import g (Inr (JArr entries)) st) =
        (if list_all has_key (filter valid_entry entries) then None
         else Some (Error ''Invalid or corrupted JSON file.'' (Some DataError)))) \<and>
    (\<forall>r. valid_entry r \<longrightarrow>
       opt_get (Some (set_game g r)) ''game'' = Some (JStr g) \<and>
       (\<forall>k. k \<noteq> ''game'' \<longrightarrow> opt_get (Some (set_game g r)) k = opt_get (Some r) k))"
proof -
  have gate: "opt_get (opt_get (first entries) ''meta'') ''fmt'' = Some (JNum 1)"
    using assms by (simp add: METADATA_FORMAT_VERSION_def)
  show ?thesis
    using import_no_valid[OF gate] import_some_valid[OF gate] set_game_reads
    by (intro conjI impI allI) blast+
qed

theorem import_persists_valid_witness:
  "opt_get (opt_get (first [sample_entry (JStr ''a'') 1, sample_no_id, sample_entry (JStr ''b'') 1])
      ''meta'') ''fmt'' = Some (JNum (of_int METADATA_FORMAT_VERSION)) \<and>
   filter valid_entry [sample_entry (JStr ''a'') 1, sample_no_id, sample_entry (JStr ''b'') 1] =
     [sample_entry (JStr ''a'') 1, sample_entry (JStr ''b'') 1] \<and>
   SaveManager_import ''mygame''
      (Inr (JArr [sample_entry (JStr ''a'') 1, sample_no_id, sample_entry (JStr ''b'') 1])) [] =
     (None,
      [set_game ''mygame'' (sample_entry (JStr ''b'') 1),
       set_game ''mygame'' (sample_entry (JStr ''a'') 1)])"
proof -
  let ?es = "[sample_entry (JStr ''a'') 1, sample_no_id, sample_entry (JStr ''b'') 1]"
  have h: "opt_get (opt_get (first ?es) ''meta'') ''fmt'' = Some (JNum (of_int METADATA_FORMAT_VERSION))"
    by (simp add: first_def sample_entry_def opt_get_def METADATA_FORMAT_VERSION_def)
  have v: "filter valid_entry ?es = [sample_entry (JStr ''a'') 1, sample_entry (JStr ''b'') 1]"
    by (simp add: valid_entry_def sample_entry_def sample_no_id_def opt_get_def truthy_def not_null_def)
  have k: "filter (\<lambda>r. valid_entry r \<and> has_key r) ?es =
      [sample_entry (JStr ''a'') 1, sample_entry (JStr ''b'') 1]"
    by (simp add: valid_entry_def sample_entry_def sample_no_id_def opt_get_def truthy_def not_null_def
        has_key_def key_of_def)
  have a: "list_all has_key (filter valid_entry ?es)"
    unfolding v by (simp add: sample_entry_def has_key_def key_of_def opt_get_def)
  have d: "key_of (set_game ''mygame'' (sample_entry (JStr ''a'') 1)) \<noteq>
      key_of (set_game ''mygame'' (sample_entry (JStr ''b'') 1))"
    by (simp add: key_of_set_game) (simp add: key_of_def sample_entry_def opt_get_def)
  from import_persists_valid [OF h, of "''mygame''" "[]"] v a
  have "snd (SaveManager_import ''mygame'' (Inr (JArr ?es)) []) =
      fold (DB_put key_of) (map (set_game ''mygame'') (filter (\<lambda>r. valid_entry r \<and> has_key r) ?es)) []"
    and "fst (SaveManager_import ''mygame'' (Inr (JArr ?es)) []) = None"
    by simp_all
  then have "SaveManager_import ''mygame'' (Inr (JArr ?es)) [] =
      (None, [set_game ''mygame'' (sample_entry (JStr ''b'') 1),
              set_game ''mygame'' (sample_entry (JStr ''a'') 1)])"
    unfolding k using d by (simp add: DB_put_def prod_eq_iff)
  then show ?thesis using h v by simp
qed

text \<open>
  C10. A bundle that parses as the empty sequence, or whose first entry has no \<open>fmt\<close>
  or the \<open>fmt\<close> 0, fails with \<open>Incompatible save version\<close>, not with
  \<open>No valid saves found in file.\<close>, and the store is as it was: the version is read as 0
  before the filter runs.
\<close>

theorem import_missing_version:
  assumes "entries = [] \<or> opt_get (opt_get (first entries) ''meta'') ''fmt'' = None \<or>
      opt_get (opt_get (first entries) ''meta'') ''fmt'' = Some (JNum 0)"
  shows "version_of entries = JNum 0 \<and>
    SaveManager_import g (Inr (JArr entries)) st =
      (Some (Error ''Incompatible save version'' (Some (Error ''Incompatible save version'' None))), st) \<and>
    message (the (fst (SaveManager_import g (Inr (JArr entries)) st))) \<noteq>
      ''No valid saves found in file.''"
proof -
  have n: "opt_get (opt_get (first entries) ''meta'') ''fmt'' = None \<or>
      opt_get (opt_get (first entries) ''meta'') ''fmt'' = Some (JNum 0)"
    using assms by (auto simp: first_def opt_get_def)
  then have v: "version_of entries = JNum 0"
    by (auto simp: version_of_def truthy_def)
  from n have "opt_get (opt_get (first entries) ''meta'') ''fmt'' \<noteq> Some (JNum 1)" by auto
  from import_incompatible[OF this] v show ?thesis by simp
qed

theorem import_missing_version_witness:
  "([sample_no_version, sample_entry (JStr ''b'') 1] = [] \<or>
    opt_get (opt_get (first [sample_no_version, sample_entry (JStr ''b'') 1]) ''meta'') ''fmt'' = None \<or>
    opt_get (opt_get (first [sample_no_version, sample_entry (JStr ''b'') 1]) ''meta'') ''fmt'' =
      Some (JNum 0)) \<and>
   valid_entry sample_no_version \<and>
   SaveManager_import ''mygame'' (Inr (JArr [sample_no_version, sample_entry (JStr ''b'') 1])) [] =
     (Some (Error ''Incompatible save version'' (Some (Error ''Incompatible save version'' None))), []) \<and>
   SaveManager_import ''mygame'' (Inr (JArr [])) [] =
     (Some (Error ''Incompatible save version'' (Some (Error ''Incompatible save version'' None))), [])"
proof -
  let ?es = "[sample_no_version, sample_entry (JStr ''b'') 1]"
  have h: "?es = [] \<or> opt_get (opt_get (first ?es) ''meta'') ''fmt'' = None \<or>
      opt_get (opt_get (first ?es) ''meta'') ''fmt'' = Some (JNum 0)"
    by (simp add: first_def sample_no_version_def opt_get_def)
  have e: "([]::json list) = [] \<or> opt_get (opt_get (first []) ''meta'') ''fmt'' = None \<or>
      opt_get (opt_get (first []) ''meta'') ''fmt'' = Some (JNum 0)"
    by simp
  have v: "valid_entry sample_no_version"
    by (simp add: valid_entry_def sample_no_version_def opt_get_def truthy_def not_null_def)
  show ?thesis
    using h v import_missing_version [OF h, of "''mygame''" "[]"]
      import_missing_version [OF e, of "''mygame''" "[]"]
    by simp
qed

section \<open>Claim about load\<close>













end
